theory Spec2Isabelle
  imports Complex_Main
begin

section \<open>JavaScript values\<close>

text \<open>
  The values that reach \<^verbatim>\<open>Model.js\<close>: \<^verbatim>\<open>undefined\<close>, \<^verbatim>\<open>null\<close>, booleans, numbers,
  strings, arrays, plain objects (their own enumerable properties, in
  \<^verbatim>\<open>Object.keys\<close> order) and an opaque host object, the promise a stub carries.
  No value of the model is callable.
  Numbers are the integers that a double represents and that print in plain decimal
  (magnitude below \<open>10\<^sup>2\<^sup>1\<close>), and \<^verbatim>\<open>NaN\<close>; fractions, larger numbers, infinities and
  the sign of zero are not represented.
  The dictionaries of a schema and the raw input are read by their own entries, and a
  method that the code calls on an instance, like its \<^verbatim>\<open>constructor\<close>, is that of the
  class; where the code tests a property of the instance against \<^verbatim>\<open>undefined\<close>, the
  members that the instance inherits are taken into account. The two readings agree
  on every schema none of whose names is that of an inherited member (\<open>well_named\<close>
  below).
\<close>

datatype jsnum = Fin int | NaN

datatype jsval =
    JUndefined
  | JNull
  | JBool bool
  | JNum jsnum
  | JStr string
  | JArr "jsval list"
  | JObj "(string \<times> jsval) list"
  | JPromise nat

type_synonym props = "(string \<times> jsval) list"

datatype error = TypeError | NoSuchObject

subsection \<open>Decimal numerals\<close>

definition digit_char :: "nat \<Rightarrow> char" where
  "digit_char d = ''0123456789'' ! (d mod 10)"

function dec_nat :: "nat \<Rightarrow> string" where
  "dec_nat n = (if n < 10 then [digit_char n] else dec_nat (n div 10) @ [digit_char n])"
  by pat_completeness auto
termination
  by (relation "measure id") auto

declare dec_nat.simps [simp del]

definition dec_int :: "int \<Rightarrow> string" where
  "dec_int i = (if i < 0 then CHR ''-'' # dec_nat (nat (- i)) else dec_nat (nat i))"

definition is_digit :: "char \<Rightarrow> bool" where
  "is_digit c = (c \<in> set ''0123456789'')"

definition digit_val :: "char \<Rightarrow> nat" where
  "digit_val c = of_char c - 48"

definition str_nat :: "string \<Rightarrow> nat" where
  "str_nat s = foldl (\<lambda>n c. 10 * n + digit_val c) 0 s"

text \<open>
  An array index is a canonical numeral below \<open>2\<^sup>3\<^sup>2 - 1\<close>. Such keys are enumerated
  first, in ascending order, by \<^verbatim>\<open>Object.keys\<close>, \<^verbatim>\<open>for-in\<close> and the spread.
\<close>

definition is_index :: "string \<Rightarrow> bool" where
  "is_index k = (k \<noteq> [] \<and> list_all is_digit k \<and> dec_nat (str_nat k) = k
                 \<and> str_nat k < 4294967295)"

subsection \<open>Conversions of the language\<close>

text \<open>\<^verbatim>\<open>ToBoolean\<close>: the falsy values are undefined, null, false, 0, NaN and the empty string.\<close>

fun truthy :: "jsval \<Rightarrow> bool" where
  "truthy JUndefined = False"
| "truthy JNull = False"
| "truthy (JBool b) = b"
| "truthy (JNum (Fin i)) = (i \<noteq> 0)"
| "truthy (JNum NaN) = False"
| "truthy (JStr s) = (s \<noteq> [])"
| "truthy (JArr xs) = True"
| "truthy (JObj ps) = True"
| "truthy (JPromise h) = True"

fun js_typeof :: "jsval \<Rightarrow> string" where
  "js_typeof JUndefined = ''undefined''"
| "js_typeof JNull = ''object''"
| "js_typeof (JBool b) = ''boolean''"
| "js_typeof (JNum n) = ''number''"
| "js_typeof (JStr s) = ''string''"
| "js_typeof (JArr xs) = ''object''"
| "js_typeof (JObj ps) = ''object''"
| "js_typeof (JPromise h) = ''object''"

fun join_comma :: "string list \<Rightarrow> string" where
  "join_comma [] = []"
| "join_comma [s] = s"
| "join_comma (s # t # ss) = s @ '','' @ join_comma (t # ss)"

fun num_to_string :: "jsnum \<Rightarrow> string" where
  "num_to_string (Fin i) = dec_int i"
| "num_to_string NaN = ''NaN''"

text \<open>The results of a list of calls made in turn: the first error, or all the values.\<close>

fun in_turn :: "(error + 'a) list \<Rightarrow> error + 'a list" where
  "in_turn [] = Inr []"
| "in_turn (Inl e # rs) = Inl e"
| "in_turn (Inr x # rs) = (case in_turn rs of Inl e \<Rightarrow> Inl e | Inr xs \<Rightarrow> Inr (x # xs))"

text \<open>
  \<^verbatim>\<open>String(val)\<close>. An array is joined with commas, its undefined and null elements
  printing as the empty string. A plain object prints through the \<^verbatim>\<open>toString\<close> it
  inherits; an own property \<^verbatim>\<open>toString\<close> hides that method and, not being callable,
  leaves the object without a primitive value: a TypeError.
\<close>

fun js_String :: "jsval \<Rightarrow> error + string" where
  "js_String JUndefined = Inr ''undefined''"
| "js_String JNull = Inr ''null''"
| "js_String (JBool b) = Inr (if b then ''true'' else ''false'')"
| "js_String (JNum n) = Inr (num_to_string n)"
| "js_String (JStr s) = Inr s"
| "js_String (JArr xs) =
     (case in_turn (map (\<lambda>x. if x = JUndefined \<or> x = JNull then Inr [] else js_String x) xs) of
        Inl e \<Rightarrow> Inl e
      | Inr ss \<Rightarrow> Inr (join_comma ss))"
| "js_String (JObj ps) =
     (if map_of ps ''toString'' \<noteq> None then Inl TypeError else Inr ''[object Object]'')"
| "js_String (JPromise h) = Inr ''[object Promise]''"

text \<open>
  \<^verbatim>\<open>Number(val)\<close>. The conversion of a string to a number is the language's own
  numeric-literal grammar; it is a parameter \<open>str2num\<close> of the model. An array or an
  object is first turned into its string, which is where the TypeError arises.
\<close>

fun js_Number :: "(string \<Rightarrow> jsnum) \<Rightarrow> jsval \<Rightarrow> error + jsnum" where
  "js_Number str2num JUndefined = Inr NaN"
| "js_Number str2num JNull = Inr (Fin 0)"
| "js_Number str2num (JBool b) = Inr (if b then Fin 1 else Fin 0)"
| "js_Number str2num (JNum n) = Inr n"
| "js_Number str2num (JStr s) = Inr (str2num s)"
| "js_Number str2num (JArr xs) =
     (case js_String (JArr xs) of Inl e \<Rightarrow> Inl e | Inr s \<Rightarrow> Inr (str2num s))"
| "js_Number str2num (JObj ps) =
     (if map_of ps ''toString'' \<noteq> None then Inl TypeError else Inr NaN)"
| "js_Number str2num (JPromise h) = Inr NaN"

subsection \<open>Property access\<close>

text \<open>
  Own enumerable property names. \<^verbatim>\<open>Object.keys\<close> raises a TypeError on undefined and
  null; a string and an array enumerate their indices.
\<close>

definition index_keys :: "nat \<Rightarrow> string list" where
  "index_keys n = map dec_nat [0..<n]"

fun own_props :: "jsval \<Rightarrow> props" where
  "own_props (JObj ps) = ps"
| "own_props (JArr xs) = zip (index_keys (length xs)) xs"
| "own_props (JStr s) = zip (index_keys (length s)) (map (\<lambda>c. JStr [c]) s)"
| "own_props v = []"

fun Object_keys :: "jsval \<Rightarrow> error + string list" where
  "Object_keys JUndefined = Inl TypeError"
| "Object_keys JNull = Inl TypeError"
| "Object_keys v = Inr (map fst (own_props v))"

text \<open>\<^verbatim>\<open>ps[k]\<close> on a property list: undefined when the property is absent.\<close>

definition obj_get :: "props \<Rightarrow> string \<Rightarrow> jsval" where
  "obj_get ps k = (case map_of ps k of None \<Rightarrow> JUndefined | Some v \<Rightarrow> v)"

text \<open>
  \<^verbatim>\<open>data[k]\<close> for a value that is neither undefined nor null (the constructor reads
  properties only after \<^verbatim>\<open>Object.keys(data)\<close> has returned).
\<close>

fun get_prop :: "jsval \<Rightarrow> string \<Rightarrow> jsval" where
  "get_prop (JArr xs) k =
     (if k = ''length'' then JNum (Fin (int (length xs))) else obj_get (own_props (JArr xs)) k)"
| "get_prop (JStr s) k =
     (if k = ''length'' then JNum (Fin (int (length s))) else obj_get (own_props (JStr s)) k)"
| "get_prop v k = obj_get (own_props v) k"

text \<open>
  \<^verbatim>\<open>ps[k] = v\<close> on an extensible object: an existing property keeps its place, a new
  array index goes among the indices in ascending order, any other new name goes last.
\<close>

fun ins_index :: "nat \<Rightarrow> string \<Rightarrow> jsval \<Rightarrow> props \<Rightarrow> props" where
  "ins_index n k v [] = [(k, v)]"
| "ins_index n k v ((k', v') # ps) =
     (if is_index k' \<and> str_nat k' < n then (k', v') # ins_index n k v ps
      else (k, v) # (k', v') # ps)"

fun upd_in_place :: "string \<Rightarrow> jsval \<Rightarrow> props \<Rightarrow> props" where
  "upd_in_place k v [] = []"
| "upd_in_place k v ((k', v') # ps) =
     (if k' = k then (k, v) # ps else (k', v') # upd_in_place k v ps)"

definition obj_put :: "string \<Rightarrow> jsval \<Rightarrow> props \<Rightarrow> props" where
  "obj_put k v ps =
     (if map_of ps k \<noteq> None then upd_in_place k v ps
      else if is_index k then ins_index (str_nat k) k v ps
      else ps @ [(k, v)])"

text \<open>The object spread \<^verbatim>\<open>{...a, ...b}\<close>: the properties of each source, assigned in turn.\<close>

definition put_all :: "props \<Rightarrow> props \<Rightarrow> props" where
  "put_all src tgt = foldl (\<lambda>acc kv. obj_put (fst kv) (snd kv) acc) tgt src"

definition spread2 :: "jsval \<Rightarrow> jsval \<Rightarrow> props" where
  "spread2 a b = put_all (own_props b) (put_all (own_props a) [])"

section \<open>The type transformers\<close>

text \<open>
  \<^verbatim>\<open>Model.Types\<close>. A call with no argument is a call with \<^verbatim>\<open>undefined\<close>. The element
  type of \<^verbatim>\<open>arrayOf\<close> is optional and defaults to \<^verbatim>\<open>nop\<close>. A transformer returns
  a value or raises what \<^verbatim>\<open>String\<close>, \<^verbatim>\<open>Number\<close> or its element type raise.
\<close>

definition Types_string :: "jsval \<Rightarrow> error + jsval" where
  "Types_string val =
     (if truthy val
      then (case js_String val of Inl e \<Rightarrow> Inl e | Inr s \<Rightarrow> Inr (JStr s))
      else Inr (JStr []))"

definition Types_number :: "(string \<Rightarrow> jsnum) \<Rightarrow> jsval \<Rightarrow> error + jsval" where
  "Types_number str2num val =
     (if val = JUndefined then Inr (JNum (Fin 0))
      else (case js_Number str2num val of Inl e \<Rightarrow> Inl e | Inr n \<Rightarrow> Inr (JNum n)))"

definition Types_array :: "jsval \<Rightarrow> error + jsval" where
  "Types_array val = (case val of JArr xs \<Rightarrow> Inr (JArr xs) | _ \<Rightarrow> Inr (JArr []))"

definition Types_nop :: "jsval \<Rightarrow> error + jsval" where
  "Types_nop val = Inr val"

definition Types_arrayOf :: "(jsval \<Rightarrow> error + jsval) option \<Rightarrow> jsval \<Rightarrow> error + jsval" where
  "Types_arrayOf type val =
     (case Types_array val of
        Inr (JArr xs) \<Rightarrow>
          (case in_turn (map (case type of None \<Rightarrow> Types_nop | Some f \<Rightarrow> f) xs) of
             Inl e \<Rightarrow> Inl e
           | Inr ys \<Rightarrow> Inr (JArr ys))
      | Inr v \<Rightarrow> Inr v
      | Inl e \<Rightarrow> Inl e)"

definition Types_bool :: "jsval \<Rightarrow> error + jsval" where
  "Types_bool val = Inr (JBool (truthy val))"

definition Types_likes :: "jsval \<Rightarrow> error + jsval" where
  "Types_likes val =
     (if val = JBool True then Inr (JNum (Fin 1))
      else if val = JBool False then Inr (JNum (Fin (- 1)))
      else if val = JNull then Inr (JNum (Fin 0))
      else Inr val)"

section \<open>Schemas, objects and the world\<close>

text \<open>
  The static members of a subclass of \<^verbatim>\<open>Model\<close>, each dictionary in the order its keys
  are enumerated. A transformer and a derivation are functions on values that return
  a value or raise.
\<close>

record schema =
  static_type :: jsval
  API_ALIASES :: "(string \<times> string) list"
  PROPERTIES :: "(string \<times> (jsval \<Rightarrow> error + jsval)) list"
  DERIVED_PROPERTIES :: "(string \<times> (jsval \<Rightarrow> error + jsval)) list"

text \<open>
  A \<^verbatim>\<open>Model\<close> instance lives in the heap, at the address that is its identity: its own
  properties and whether \<^verbatim>\<open>Object.freeze\<close> has been applied to it. The world also
  holds the values that the coming calls of \<^verbatim>\<open>Math.random\<close> return (each in \<open>[0, 1)\<close>)
  and what \<^verbatim>\<open>console.warn\<close> has printed.
\<close>

record obj =
  own :: props
  frozen :: bool

record world =
  heap :: "obj list"
  random :: "nat \<Rightarrow> rat"
  warnings :: "string list"

definition lookup_obj :: "world \<Rightarrow> nat \<Rightarrow> obj option" where
  "lookup_obj w a = (if a < length (heap w) then Some (heap w ! a) else None)"

definition alloc :: "obj \<Rightarrow> world \<Rightarrow> nat \<times> world" where
  "alloc ob w = (length (heap w), w\<lparr>heap := heap w @ [ob]\<rparr>)"

text \<open>
  An assignment \<^verbatim>\<open>o.k = v\<close> from outside the constructor. Class bodies are strict code,
  where writing to a frozen object raises a TypeError.
\<close>

definition set_prop :: "nat \<Rightarrow> string \<Rightarrow> jsval \<Rightarrow> world \<Rightarrow> error + world" where
  "set_prop a k v w =
     (case lookup_obj w a of
        None \<Rightarrow> Inl NoSuchObject
      | Some ob \<Rightarrow>
          if frozen ob then Inl TypeError
          else Inr (w\<lparr>heap := (heap w)[a := ob\<lparr>own := obj_put k v (own ob)\<rparr>]\<rparr>))"

definition Object_freeze :: "nat \<Rightarrow> world \<Rightarrow> error + world" where
  "Object_freeze a w =
     (case lookup_obj w a of
        None \<Rightarrow> Inl NoSuchObject
      | Some ob \<Rightarrow> Inr (w\<lparr>heap := (heap w)[a := ob\<lparr>frozen := True\<rparr>]\<rparr>))"

definition Math_random :: "world \<Rightarrow> rat \<times> world" where
  "Math_random w = (random w 0, w\<lparr>random := (\<lambda>n. random w (Suc n))\<rparr>)"

definition console_warn :: "string \<Rightarrow> world \<Rightarrow> world" where
  "console_warn msg w = w\<lparr>warnings := warnings w @ [msg]\<rparr>"

text \<open>\<^verbatim>\<open>x.toFixed()\<close> for \<open>x \<ge> 0\<close>: the nearest integer, the larger one at a tie.\<close>

definition toFixed :: "rat \<Rightarrow> string" where
  "toFixed x = dec_nat (nat \<lfloor>x + 1 / 2\<rfloor>)"

definition fakeUUID :: "world \<Rightarrow> string \<times> world" where
  "fakeUUID w = (case Math_random w of (r, w') \<Rightarrow> (toFixed (r * 16), w'))"

section \<open>The model class\<close>

definition makeUUID :: "jsval \<Rightarrow> world \<Rightarrow> jsval \<times> world" where
  "makeUUID data w =
     (if truthy (get_prop data ''uuid'') then (get_prop data ''uuid'', w)
      else if truthy (get_prop data ''id'') then (get_prop data ''id'', w)
      else (case fakeUUID (console_warn ''generating fake uuid'' w) of
              (u, w') \<Rightarrow> (JStr u, w')))"

definition makePaginationId :: "props \<Rightarrow> jsval \<Rightarrow> world \<Rightarrow> jsval \<times> world" where
  "makePaginationId this data w =
     (if truthy (obj_get this ''uuid'') then (obj_get this ''uuid'', w) else makeUUID data w)"

definition getType :: "schema \<Rightarrow> jsval" where
  "getType sch = static_type sch"

text \<open>The canonical name of a raw key: its alias when that is a non-empty name.\<close>

definition keyName_of :: "schema \<Rightarrow> string \<Rightarrow> string" where
  "keyName_of sch key =
     (case map_of (API_ALIASES sch) key of
        Some keyName \<Rightarrow> if keyName \<noteq> [] then keyName else key
      | None \<Rightarrow> key)"

text \<open>The first loop of the constructor, over \<^verbatim>\<open>Object.keys(data)\<close>.\<close>

fun assign_fields :: "schema \<Rightarrow> jsval \<Rightarrow> string list \<Rightarrow> props \<Rightarrow> error + props" where
  "assign_fields sch data [] this = Inr this"
| "assign_fields sch data (key # dataKeys) this =
     (if map_of (DERIVED_PROPERTIES sch) key \<noteq> None then assign_fields sch data dataKeys this
      else (case map_of (PROPERTIES sch) (keyName_of sch key) of
              Some typeFn \<Rightarrow>
                (case typeFn (get_prop data key) of
                   Inl e \<Rightarrow> Inl e
                 | Inr v \<Rightarrow> assign_fields sch data dataKeys (obj_put (keyName_of sch key) v this))
            | None \<Rightarrow> assign_fields sch data dataKeys this))"

text \<open>
  The members that an instance inherits: the methods of \<^verbatim>\<open>Model.prototype\<close> and the
  members of \<^verbatim>\<open>Object.prototype\<close>. None of them is \<^verbatim>\<open>undefined\<close>.
\<close>

definition inherited_names :: "string list" where
  "inherited_names =
     [''constructor'', ''_diff'', ''set'', ''stub'', ''makeUUID'', ''makePaginationId'',
      ''getType'', ''toRecord'', ''toJSON'',
      ''__defineGetter__'', ''__defineSetter__'', ''hasOwnProperty'', ''__lookupGetter__'',
      ''__lookupSetter__'', ''isPrototypeOf'', ''propertyIsEnumerable'', ''toString'',
      ''valueOf'', ''__proto__'', ''toLocaleString'']"

text \<open>
  \<^verbatim>\<open>this[k] === undefined\<close>: the own property when there is one, else the inherited
  member.
\<close>

definition reads_undefined :: "props \<Rightarrow> string \<Rightarrow> bool" where
  "reads_undefined this k =
     (case map_of this k of Some v \<Rightarrow> v = JUndefined | None \<Rightarrow> k \<notin> set inherited_names)"

text \<open>The second loop, over the names of \<^verbatim>\<open>PROPERTIES\<close>.\<close>

fun default_fill :: "schema \<Rightarrow> string list \<Rightarrow> props \<Rightarrow> error + props" where
  "default_fill sch [] this = Inr this"
| "default_fill sch (propName # names) this =
     (if reads_undefined this propName
      then (case map_of (PROPERTIES sch) propName of
              Some typeFn \<Rightarrow>
                (case typeFn JUndefined of
                   Inl e \<Rightarrow> Inl e
                 | Inr v \<Rightarrow> default_fill sch names (obj_put propName v this))
            | None \<Rightarrow> default_fill sch names this)
      else default_fill sch names this)"

text \<open>The third loop, over \<^verbatim>\<open>Object.keys(DERIVED_PROPERTIES)\<close>.\<close>

fun derive_fields :: "schema \<Rightarrow> jsval \<Rightarrow> string list \<Rightarrow> props \<Rightarrow> error + props" where
  "derive_fields sch data [] this = Inr this"
| "derive_fields sch data (derivedKey # derivedKeys) this =
     (case (map_of (DERIVED_PROPERTIES sch) derivedKey, map_of (PROPERTIES sch) derivedKey) of
        (Some derviceFn, Some typeFn) \<Rightarrow>
          (case derviceFn data of
             Inl e \<Rightarrow> Inl e
           | Inr d \<Rightarrow>
               (case typeFn d of
                  Inl e \<Rightarrow> Inl e
                | Inr v \<Rightarrow> derive_fields sch data derivedKeys (obj_put derivedKey v this)))
      | _ \<Rightarrow> derive_fields sch data derivedKeys this)"

text \<open>
  The properties that the three loops write on the new object, which nothing else
  refers to before the constructor returns and which is not frozen while it runs.
\<close>

definition init_fields :: "schema \<Rightarrow> jsval \<Rightarrow> string list \<Rightarrow> error + props" where
  "init_fields sch data dataKeys =
     (case assign_fields sch data dataKeys [] of
        Inl e \<Rightarrow> Inl e
      | Inr this1 \<Rightarrow>
          (case default_fill sch (map fst (PROPERTIES sch)) this1 of
             Inl e \<Rightarrow> Inl e
           | Inr this2 \<Rightarrow> derive_fields sch data (map fst (DERIVED_PROPERTIES sch)) this2))"

definition identify :: "schema \<Rightarrow> jsval \<Rightarrow> props \<Rightarrow> world \<Rightarrow> props \<times> world" where
  "identify sch data this w =
     (case makeUUID data w of (uuid, w1) \<Rightarrow>
        (case makePaginationId (obj_put ''uuid'' uuid this) data w1 of (pid, w2) \<Rightarrow>
           (obj_put ''type'' (getType sch)
              (obj_put ''paginationId'' pid (obj_put ''uuid'' uuid this)), w2)))"

text \<open>
  \<^verbatim>\<open>new this(data, flag)\<close>: the address of the new instance and the world after it, or
  the error that \<^verbatim>\<open>Object.keys\<close>, a transformer or a derivation raised. An error
  leaves the world as it was: nothing has been printed yet and no reference to the new
  object exists.
\<close>

definition Model_constructor ::
    "schema \<Rightarrow> jsval \<Rightarrow> bool \<Rightarrow> world \<Rightarrow> error + nat \<times> world" where
  "Model_constructor sch data SHOULD_FREEZE_FLAG w =
     (case Object_keys data of
        Inl e \<Rightarrow> Inl e
      | Inr dataKeys \<Rightarrow>
          (case init_fields sch data dataKeys of
             Inl e \<Rightarrow> Inl e
           | Inr this3 \<Rightarrow>
               (case identify sch data this3 w of
                  (this, w') \<Rightarrow>
                    Inr (alloc \<lparr>own = this, frozen = \<not> SHOULD_FREEZE_FLAG\<rparr> w'))))"

definition fromJSON :: "schema \<Rightarrow> jsval \<Rightarrow> world \<Rightarrow> error + nat \<times> world" where
  "fromJSON sch ob w = Model_constructor sch ob False w"

text \<open>\<^verbatim>\<open>toJSON\<close>, on the properties of the instance.\<close>

definition toJSON_props :: "schema \<Rightarrow> props \<Rightarrow> props" where
  "toJSON_props sch this =
     obj_put ''type'' (obj_get this ''type'')
       (obj_put ''uuid'' (obj_get this ''uuid'')
          (foldl (\<lambda>ob key. if map_of (PROPERTIES sch) key \<noteq> None
                            then obj_put key (obj_get this key) ob else ob)
             [] (map fst this)))"

definition toJSON :: "schema \<Rightarrow> nat \<Rightarrow> world \<Rightarrow> error + props" where
  "toJSON sch a w =
     (case lookup_obj w a of
        None \<Rightarrow> Inl NoSuchObject
      | Some ob \<Rightarrow> Inr (toJSON_props sch (own ob)))"

text \<open>\<^verbatim>\<open>_diff\<close>: a computed property name is the string of the key.\<close>

definition diff :: "jsval \<Rightarrow> jsval \<Rightarrow> error + jsval" where
  "diff keyOrObject val =
     (if js_typeof keyOrObject = ''object'' then Inr keyOrObject
      else (case js_String keyOrObject of
              Inl e \<Rightarrow> Inl e
            | Inr k \<Rightarrow> Inr (JObj [(k, val)])))"

definition set_Model ::
    "schema \<Rightarrow> nat \<Rightarrow> jsval \<Rightarrow> jsval \<Rightarrow> world \<Rightarrow> error + nat \<times> world" where
  "set_Model sch a keyOrObject val w =
     (case toJSON sch a w of
        Inl e \<Rightarrow> Inl e
      | Inr json \<Rightarrow>
          (case diff keyOrObject val of
             Inl e \<Rightarrow> Inl e
           | Inr patch \<Rightarrow> Model_constructor sch (JObj (spread2 (JObj json) patch)) False w))"

definition stub ::
    "schema \<Rightarrow> nat \<Rightarrow> jsval \<Rightarrow> jsval \<Rightarrow> jsval \<Rightarrow> world \<Rightarrow> error + nat \<times> world" where
  "stub sch a keyOrObject valueOrPromise promise w =
     (case toJSON sch a w of
        Inl e \<Rightarrow> Inl e
      | Inr json \<Rightarrow>
          (case diff keyOrObject valueOrPromise of
             Inl e \<Rightarrow> Inl e
           | Inr patch \<Rightarrow>
               (case Model_constructor sch (JObj (spread2 (JObj json) patch)) True w of
                  Inl e \<Rightarrow> Inl e
                | Inr (s, w1) \<Rightarrow>
                    (case set_prop s ''promise''
                            (if \<not> truthy promise then valueOrPromise else promise) w1 of
                       Inl e \<Rightarrow> Inl e
                     | Inr w2 \<Rightarrow>
                         (case Object_freeze s w2 of
                            Inl e \<Rightarrow> Inl e
                          | Inr w3 \<Rightarrow> Inr (s, w3))))))"

text \<open>Reading a property of an instance in the heap.\<close>

definition field :: "world \<Rightarrow> nat \<Rightarrow> string \<Rightarrow> jsval" where
  "field w a k = (case lookup_obj w a of None \<Rightarrow> JUndefined | Some ob \<Rightarrow> obj_get (own ob) k)"

section \<open>The schemas of the scenarios\<close>







text \<open>Fields \<^verbatim>\<open>{a: string, b: number}\<close>.\<close>

definition ab_schema :: "jsval \<Rightarrow> (string \<Rightarrow> jsnum) \<Rightarrow> schema" where
  "ab_schema kind str2num =
     \<lparr>static_type = kind, API_ALIASES = [],
      PROPERTIES = [(''a'', Types_string), (''b'', Types_number str2num)],
      DERIVED_PROPERTIES = []\<rparr>"

text \<open>Alias \<^verbatim>\<open>{x: 'y'}\<close>, field \<^verbatim>\<open>{y: string}\<close>.\<close>

definition alias_schema :: "jsval \<Rightarrow> schema" where
  "alias_schema kind =
     \<lparr>static_type = kind, API_ALIASES = [(''x'', ''y'')],
      PROPERTIES = [(''y'', Types_string)],
      DERIVED_PROPERTIES = []\<rparr>"



text \<open>Field \<^verbatim>\<open>{score: number}\<close>, for the stub scenario.\<close>

definition score_schema :: "jsval \<Rightarrow> (string \<Rightarrow> jsnum) \<Rightarrow> schema" where
  "score_schema kind str2num =
     \<lparr>static_type = kind, API_ALIASES = [],
      PROPERTIES = [(''score'', Types_number str2num)],
      DERIVED_PROPERTIES = []\<rparr>"

text \<open>
  A world to run the scenarios in: an empty heap, nothing printed, and a random source
  that always returns one half, so that the fallback identifier is \<^verbatim>\<open>"8"\<close>.
\<close>

definition world0 :: world where
  "world0 = \<lparr>heap = [], random = (\<lambda>n. 1 / 2), warnings = []\<rparr>"

text \<open>
  Construction re-run on the serialization of an instance:
  \<^verbatim>\<open>Model.fromJSON(instance.toJSON())\<close> on the class of the instance.
\<close>

definition fromJSON_toJSON :: "schema \<Rightarrow> nat \<Rightarrow> world \<Rightarrow> error + nat \<times> world" where
  "fromJSON_toJSON sch a w =
     (case toJSON sch a w of Inl e \<Rightarrow> Inl e | Inr json \<Rightarrow> fromJSON sch (JObj json) w)"

section \<open>Notions for the statements\<close>

text \<open>
  A value that \<^verbatim>\<open>String\<close> and \<^verbatim>\<open>Number\<close> turn into a primitive: it is not an object
  with an own property \<^verbatim>\<open>toString\<close>, nor an array with such an object among its
  elements or theirs.
\<close>

fun convertible :: "jsval \<Rightarrow> bool" where
  "convertible (JObj ps) = (map_of ps ''toString'' = None)"
| "convertible (JArr xs) = list_all convertible xs"
| "convertible v = True"


text \<open>
  Every call that the constructor makes on this raw input returns: the transformer of
  each raw key that is assigned, each transformer called with no argument, and each
  derivation followed by its transformer.
\<close>

definition calls_return :: "schema \<Rightarrow> jsval \<Rightarrow> bool" where
  "calls_return sch data =
     ((\<forall>k \<in> set (map fst (own_props data)). \<forall>t.
          map_of (DERIVED_PROPERTIES sch) k = None \<longrightarrow>
          map_of (PROPERTIES sch) (keyName_of sch k) = Some t \<longrightarrow>
          (\<exists>r. t (get_prop data k) = Inr r))
      \<and> (\<forall>p t. map_of (PROPERTIES sch) p = Some t \<longrightarrow> (\<exists>r. t JUndefined = Inr r))
      \<and> (\<forall>d f t. map_of (DERIVED_PROPERTIES sch) d = Some f \<longrightarrow>
            map_of (PROPERTIES sch) d = Some t \<longrightarrow> (\<exists>x r. f data = Inr x \<and> t x = Inr r)))"

text \<open>
  No name that the schema mentions (a declared field, a derived field, a raw key that
  has an alias, the alias itself) is the name of a member that an instance or a
  dictionary inherits.
\<close>

definition well_named :: "schema \<Rightarrow> bool" where
  "well_named sch =
     (\<forall>k. map_of (PROPERTIES sch) k \<noteq> None \<or> map_of (DERIVED_PROPERTIES sch) k \<noteq> None
             \<or> k \<in> fst ` set (API_ALIASES sch) \<or> k \<in> snd ` set (API_ALIASES sch)
           \<longrightarrow> k \<notin> set inherited_names)"

text \<open>
  The field \<^verbatim>\<open>{uuid: string}\<close>, a class that declares the identifier as a field of its
  own.
\<close>

definition uuid_schema :: "jsval \<Rightarrow> schema" where
  "uuid_schema kind =
     \<lparr>static_type = kind, API_ALIASES = [],
      PROPERTIES = [(''uuid'', Types_string)],
      DERIVED_PROPERTIES = []\<rparr>"

section \<open>Facts about values and transformers\<close>

lemmas value_defs =
  is_index_def is_digit_def digit_val_def str_nat_def digit_char_def dec_int_def
  obj_get_def obj_put_def put_all_def spread2_def index_keys_def

lemmas types_defs =
  Types_string_def Types_number_def Types_array_def Types_nop_def Types_arrayOf_def
  Types_bool_def Types_likes_def

lemmas world_defs =
  lookup_obj_def alloc_def set_prop_def Object_freeze_def Math_random_def console_warn_def
  fakeUUID_def field_def

lemmas model_defs =
  makeUUID_def makePaginationId_def getType_def keyName_of_def init_fields_def identify_def
  Model_constructor_def fromJSON_def toJSON_props_def toJSON_def diff_def set_Model_def
  stub_def reads_undefined_def inherited_names_def

lemma dec_nat_not_Nil: "dec_nat n \<noteq> []"
  by (subst dec_nat.simps) simp

lemma toFixed_not_Nil: "toFixed x \<noteq> []"
  by (simp add: toFixed_def dec_nat_not_Nil)

lemma map_of_upd_in_place:
  "map_of (upd_in_place k v ps) x =
     (if x = k \<and> map_of ps k \<noteq> None then Some v else map_of ps x)"
  by (induction ps) auto

lemma map_of_ins_index:
  "map_of ps k = None \<Longrightarrow>
   map_of (ins_index n k v ps) x = (if x = k then Some v else map_of ps x)"
  by (induction ps) (auto split: if_splits)

lemma map_of_snoc:
  "map_of ps k = None \<Longrightarrow>
   map_of (ps @ [(k, v)]) x = (if x = k then Some v else map_of ps x)"
  by (auto simp: map_add_def split: option.splits)

lemma map_of_obj_put: "map_of (obj_put k v ps) x = (if x = k then Some v else map_of ps x)"
proof (cases "map_of ps k = None")
  case False
  then show ?thesis by (simp add: obj_put_def map_of_upd_in_place)
next
  case absent: True
  show ?thesis
  proof (cases "is_index k")
    case True
    with absent have "obj_put k v ps = ins_index (str_nat k) k v ps"
      by (simp add: obj_put_def)
    then show ?thesis by (simp only: map_of_ins_index [OF absent])
  next
    case False
    with absent have "obj_put k v ps = ps @ [(k, v)]"
      by (simp add: obj_put_def)
    then show ?thesis by (simp only: map_of_snoc [OF absent])
  qed
qed

lemma obj_get_obj_put: "obj_get (obj_put k v ps) k' = (if k' = k then v else obj_get ps k')"
  by (simp add: obj_get_def map_of_obj_put)

lemma key_mem: "p \<in> set (map fst ps) \<longleftrightarrow> map_of ps p \<noteq> None"
  by (simp add: map_of_eq_None_iff)


subsection \<open>Calls in turn\<close>

lemma in_turn_returns:
  "(\<exists>ys. in_turn (map f xs) = Inr ys) \<longleftrightarrow> (\<forall>x \<in> set xs. \<exists>y. f x = Inr y)"
proof (induction xs)
  case Nil
  then show ?case by simp
next
  case (Cons x xs)
  then show ?case
    by (cases "f x"; cases "in_turn (map f xs)") auto
qed

lemma in_turn_error:
  "in_turn (map f xs) = Inl e \<Longrightarrow> \<exists>x \<in> set xs. f x = Inl e"
proof (induction xs)
  case Nil
  then show ?case by simp
next
  case (Cons x xs)
  then show ?case
    by (cases "f x"; cases "in_turn (map f xs)") auto
qed

lemma in_turn_results:
  "in_turn (map f xs) = Inr ys \<Longrightarrow> list_all2 (\<lambda>x y. f x = Inr y) xs ys"
proof (induction xs arbitrary: ys)
  case Nil
  then show ?case by simp
next
  case (Cons x xs)
  then show ?case
    by (cases "f x"; cases "in_turn (map f xs)") auto
qed

lemma in_turn_fixed:
  "\<forall>y \<in> set ys. f y = Inr y \<Longrightarrow> in_turn (map f ys) = Inr ys"
  by (induction ys) auto

subsection \<open>Where \<^verbatim>\<open>String\<close> and \<^verbatim>\<open>Number\<close> raise\<close>

lemma js_String_returns: "(\<exists>s. js_String v = Inr s) \<longleftrightarrow> convertible v"
proof (induction v rule: js_String.induct)
  case (6 xs)
  let ?f = "\<lambda>x. if x = JUndefined \<or> x = JNull then Inr [] else js_String x"
  have "(\<forall>x \<in> set xs. \<exists>y. ?f x = Inr y) \<longleftrightarrow> (\<forall>x \<in> set xs. convertible x)"
    using 6 by (intro ball_cong refl) auto
  then have "(\<exists>ss. in_turn (map ?f xs) = Inr ss) \<longleftrightarrow> list_all convertible xs"
    by (simp only: in_turn_returns list_all_iff)
  then show ?case
    by (cases "in_turn (map ?f xs)") auto
qed simp_all

lemma js_String_error: "js_String v = Inl e \<Longrightarrow> e = TypeError"
proof (induction v rule: js_String.induct)
  case (6 xs)
  let ?f = "\<lambda>x. if x = JUndefined \<or> x = JNull then Inr [] else js_String x"
  from 6(2) have "in_turn (map ?f xs) = Inl e"
    by (cases "in_turn (map ?f xs)") auto
  then obtain x where "x \<in> set xs" "?f x = Inl e"
    using in_turn_error by blast
  with 6(1) show ?case by (auto split: if_splits)
qed (auto split: if_splits)

lemma js_Number_returns: "(\<exists>n. js_Number str2num v = Inr n) \<longleftrightarrow> convertible v"
proof (cases v)
  case (JArr xs)
  then show ?thesis
    using js_String_returns [of "JArr xs"]
    by (cases "js_String (JArr xs)") (auto simp del: js_String.simps convertible.simps)
qed auto

lemma js_Number_error: "js_Number str2num v = Inl e \<Longrightarrow> e = TypeError"
proof (cases v)
  case (JArr xs)
  assume "js_Number str2num v = Inl e"
  with JArr show ?thesis
    using js_String_error [of "JArr xs" e]
    by (cases "js_String (JArr xs)") (auto simp del: js_String.simps)
qed (auto split: if_splits)

lemma js_String_primitive:
  "js_typeof v \<noteq> ''object'' \<Longrightarrow> \<exists>s. js_String v = Inr s"
  by (cases v) auto

lemma diff_returns: "\<exists>patch. diff keyOrObject val = Inr patch"
  using js_String_primitive [of keyOrObject] by (auto simp: diff_def)

subsection \<open>The transformers\<close>

lemma falsy_convertible: "\<not> truthy v \<Longrightarrow> convertible v"
  by (cases v) auto

lemma Types_string_returns: "(\<exists>r. Types_string v = Inr r) \<longleftrightarrow> convertible v"
  using js_String_returns [of v] falsy_convertible [of v]
  by (cases "js_String v") (auto simp: Types_string_def)

lemma Types_number_returns: "(\<exists>r. Types_number str2num v = Inr r) \<longleftrightarrow> convertible v"
  using js_Number_returns [of str2num v]
  by (cases "js_Number str2num v") (auto simp: Types_number_def)

lemma Types_string_error: "Types_string v = Inl e \<Longrightarrow> e = TypeError"
  using js_String_error [of v e]
  by (cases "js_String v") (auto simp: Types_string_def split: if_splits)

lemma Types_number_error: "Types_number str2num v = Inl e \<Longrightarrow> e = TypeError"
  using js_Number_error [of str2num v e]
  by (cases "js_Number str2num v") (auto simp: Types_number_def split: if_splits)

lemma Types_string_typed: "Types_string v = Inr r \<Longrightarrow> js_typeof r = ''string''"
  by (cases "js_String v") (auto simp: Types_string_def split: if_splits)

lemma Types_number_typed: "Types_number str2num v = Inr r \<Longrightarrow> js_typeof r = ''number''"
  by (cases "js_Number str2num v") (auto simp: Types_number_def split: if_splits)


lemma Types_arrayOf_eq:
  "Types_arrayOf type v =
     (case in_turn (map (case type of None \<Rightarrow> Types_nop | Some f \<Rightarrow> f)
                        (case v of JArr xs \<Rightarrow> xs | _ \<Rightarrow> [])) of
        Inl e \<Rightarrow> Inl e | Inr ys \<Rightarrow> Inr (JArr ys))"
  by (cases v) (simp_all add: Types_arrayOf_def Types_array_def)

lemma Types_arrayOf_idempotent:
  assumes idem: "\<And>x y. f x = Inr y \<Longrightarrow> f y = Inr y"
      and ret: "Types_arrayOf (Some f) v = Inr r"
  shows "Types_arrayOf (Some f) r = Inr r"
proof -
  let ?xs = "case v of JArr xs \<Rightarrow> xs | _ \<Rightarrow> []"
  from ret obtain ys where ys: "in_turn (map f ?xs) = Inr ys" and r: "r = JArr ys"
    by (cases "in_turn (map f ?xs)") (auto simp: Types_arrayOf_eq)
  from in_turn_results [OF ys] have "\<forall>y \<in> set ys. \<exists>x. f x = Inr y"
    by (induction rule: list_all2_induct) auto
  with idem have "\<forall>y \<in> set ys. f y = Inr y" by blast
  then have "in_turn (map f ys) = Inr ys" by (rule in_turn_fixed)
  with r show ?thesis by (simp add: Types_arrayOf_eq)
qed

subsection \<open>The constructor\<close>

lemma Object_keys_Inr:
  "data \<noteq> JUndefined \<Longrightarrow> data \<noteq> JNull \<Longrightarrow> Object_keys data = Inr (map fst (own_props data))"
  by (cases data) simp_all

lemma makeUUID_truthy: "truthy (fst (makeUUID data w))"
  by (simp add: makeUUID_def fakeUUID_def Math_random_def toFixed_not_Nil)

lemma makeUUID_heap: "heap (snd (makeUUID data w)) = heap w"
  by (simp add: makeUUID_def fakeUUID_def Math_random_def console_warn_def)


lemma identify_eq:
  "identify sch data this w =
     (obj_put ''type'' (static_type sch)
        (obj_put ''paginationId'' (fst (makeUUID data w))
           (obj_put ''uuid'' (fst (makeUUID data w)) this)),
      snd (makeUUID data w))"
proof -
  obtain u w1 where mk: "makeUUID data w = (u, w1)"
    by (cases "makeUUID data w")
  with makeUUID_truthy [of data w] have "truthy u" by simp
  then have "makePaginationId (obj_put ''uuid'' u this) data w1 = (u, w1)"
    by (simp add: makePaginationId_def obj_get_obj_put)
  with mk show ?thesis
    by (simp add: identify_def getType_def)
qed

lemma obj_get_identify:
  "obj_get (fst (identify sch data this w)) k =
     (if k = ''type'' then static_type sch
      else if k = ''paginationId'' \<or> k = ''uuid'' then fst (makeUUID data w)
      else obj_get this k)"
  by (simp add: identify_eq obj_get_obj_put)


text \<open>What the constructor returns, given what the three loops return.\<close>

lemma Model_constructor_eq:
  assumes "data \<noteq> JUndefined" and "data \<noteq> JNull"
  shows "Model_constructor sch data flag w =
           (case init_fields sch data (map fst (own_props data)) of
              Inl e \<Rightarrow> Inl e
            | Inr this3 \<Rightarrow>
                Inr (length (heap w),
                     (snd (makeUUID data w))
                       \<lparr>heap := heap w @
                          [\<lparr>own = fst (identify sch data this3 w), frozen = \<not> flag\<rparr>]\<rparr>))"
  using assms
  by (simp add: Model_constructor_def Object_keys_Inr identify_eq alloc_def makeUUID_heap
           split: sum.splits)

lemma Model_constructor_InrD:
  assumes "Model_constructor sch data flag w = Inr (a, w')"
  obtains this3 where "data \<noteq> JUndefined" and "data \<noteq> JNull"
    and "init_fields sch data (map fst (own_props data)) = Inr this3"
    and "a = length (heap w)"
    and "w' = (snd (makeUUID data w))
                \<lparr>heap := heap w @ [\<lparr>own = fst (identify sch data this3 w), frozen = \<not> flag\<rparr>]\<rparr>"
proof -
  from assms have ok: "data \<noteq> JUndefined" "data \<noteq> JNull"
    by (auto simp: Model_constructor_def)
  with assms that show thesis
    by (auto simp: Model_constructor_eq split: sum.splits)
qed

lemma field_new:
  "field (w'\<lparr>heap := h @ [ob]\<rparr>) (length h) k = obj_get (own ob) k"
  by (simp add: field_def lookup_obj_def)

lemma lookup_obj_Some: "lookup_obj w a = Some ob \<Longrightarrow> a < length (heap w) \<and> heap w ! a = ob"
  by (auto simp: lookup_obj_def split: if_splits)

subsection \<open>The three loops\<close>

lemma derive_fields_other:
  "derive_fields sch data keys this = Inr r \<Longrightarrow>
   map_of (DERIVED_PROPERTIES sch) p = None \<or> map_of (PROPERTIES sch) p = None \<or> p \<notin> set keys \<Longrightarrow>
   map_of r p = map_of this p"
  by (induction keys arbitrary: this)
     (auto simp: map_of_obj_put split: option.splits sum.splits if_splits)



lemma derive_fields_returns:
  assumes "\<forall>d f t. map_of (DERIVED_PROPERTIES sch) d = Some f \<and> map_of (PROPERTIES sch) d = Some t
             \<longrightarrow> (\<exists>x r. f data = Inr x \<and> t x = Inr r)"
  shows "\<exists>r. derive_fields sch data keys this = Inr r"
proof (induction keys arbitrary: this)
  case Nil
  then show ?case by simp
next
  case (Cons k keys)
  show ?case
  proof (cases "map_of (DERIVED_PROPERTIES sch) k")
    case None
    with Cons show ?thesis by simp
  next
    case f: (Some f)
    show ?thesis
    proof (cases "map_of (PROPERTIES sch) k")
      case None
      with f Cons show ?thesis by simp
    next
      case (Some t)
      with f assms obtain x r where "f data = Inr x" "t x = Inr r" by blast
      with f Some Cons [of "obj_put k r this"] show ?thesis by simp
    qed
  qed
qed

lemma assign_fields_other:
  "assign_fields sch data keys this = Inr r \<Longrightarrow>
   \<forall>k \<in> set keys. map_of (DERIVED_PROPERTIES sch) k = None \<longrightarrow> keyName_of sch k \<noteq> p \<Longrightarrow>
   map_of r p = map_of this p"
  by (induction keys arbitrary: this)
     (auto simp: map_of_obj_put split: option.splits sum.splits if_splits)




lemma assign_fields_returns:
  assumes "\<forall>k \<in> set keys. \<forall>t. map_of (DERIVED_PROPERTIES sch) k = None \<longrightarrow>
             map_of (PROPERTIES sch) (keyName_of sch k) = Some t \<longrightarrow>
             (\<exists>r. t (get_prop data k) = Inr r)"
  shows "\<exists>r. assign_fields sch data keys this = Inr r"
  using assms
proof (induction keys arbitrary: this)
  case Nil
  then show ?case by simp
next
  case (Cons k keys)
  then have rest: "\<exists>r. assign_fields sch data keys this' = Inr r" for this'
    by simp
  show ?case
  proof (cases "map_of (DERIVED_PROPERTIES sch) k = None")
    case False
    with rest show ?thesis by simp
  next
    case nd: True
    show ?thesis
    proof (cases "map_of (PROPERTIES sch) (keyName_of sch k)")
      case None
      with nd rest show ?thesis by simp
    next
      case (Some t)
      with nd Cons.prems obtain r where "t (get_prop data k) = Inr r" by auto
      with nd Some rest [of "obj_put (keyName_of sch k) r this"] show ?thesis by simp
    qed
  qed
qed




lemma reads_undefined_obj_put:
  "reads_undefined (obj_put k v this) p = (if p = k then v = JUndefined else reads_undefined this p)"
  by (simp add: reads_undefined_def map_of_obj_put)

lemma default_fill_other:
  "default_fill sch names this = Inr r \<Longrightarrow>
   p \<notin> set names \<or> \<not> reads_undefined this p \<or> map_of (PROPERTIES sch) p = None \<Longrightarrow>
   map_of r p = map_of this p"
proof (induction names arbitrary: this)
  case Nil
  then show ?case by simp
next
  case (Cons n names)
  show ?case
  proof (cases "reads_undefined this n")
    case False
    with Cons show ?thesis by auto
  next
    case ru: True
    show ?thesis
    proof (cases "map_of (PROPERTIES sch) n")
      case None
      with ru Cons show ?thesis by auto
    next
      case (Some t)
      with ru Cons.prems obtain v where v: "t JUndefined = Inr v"
        and rest: "default_fill sch names (obj_put n v this) = Inr r"
        by (auto split: sum.splits)
      from Cons.prems(2) ru Some have "p \<noteq> n" by auto
      then have "map_of r p = map_of (obj_put n v this) p"
        using Cons.prems(2) by (intro Cons.IH [OF rest]) (auto simp: reads_undefined_obj_put)
      with \<open>p \<noteq> n\<close> show ?thesis by (simp add: map_of_obj_put)
    qed
  qed
qed

lemma default_fill_filled:
  "default_fill sch names this = Inr r \<Longrightarrow>
   p \<in> set names \<Longrightarrow> reads_undefined this p \<Longrightarrow> map_of (PROPERTIES sch) p = Some t \<Longrightarrow>
   \<exists>v. t JUndefined = Inr v \<and> map_of r p = Some v"
proof (induction names arbitrary: this)
  case Nil
  then show ?case by simp
next
  case (Cons n names)
  show ?case
  proof (cases "n = p")
    case True
    with Cons.prems obtain v where v: "t JUndefined = Inr v"
      and rest: "default_fill sch names (obj_put p v this) = Inr r"
      by (auto split: sum.splits)
    show ?thesis
    proof (cases "p \<in> set names \<and> v = JUndefined")
      case True
      then have "\<exists>v'. t JUndefined = Inr v' \<and> map_of r p = Some v'"
        using Cons.prems(4) by (intro Cons.IH [OF rest]) (auto simp: reads_undefined_obj_put)
      then show ?thesis .
    next
      case False
      then have "map_of r p = map_of (obj_put p v this) p"
        by (intro default_fill_other [OF rest]) (auto simp: reads_undefined_obj_put)
      with v show ?thesis by (simp add: map_of_obj_put)
    qed
  next
    case False
    with Cons.prems have p: "p \<in> set names" by simp
    show ?thesis
    proof (cases "reads_undefined this n")
      case False
      with Cons.prems p show ?thesis by (auto intro: Cons.IH)
    next
      case ru: True
      show ?thesis
      proof (cases "map_of (PROPERTIES sch) n")
        case None
        with ru Cons.prems p show ?thesis by (auto intro: Cons.IH)
      next
        case (Some t')
        with ru Cons.prems obtain v where
          rest: "default_fill sch names (obj_put n v this) = Inr r"
          by (auto split: sum.splits)
        show ?thesis
          using p Cons.prems(3,4) \<open>n \<noteq> p\<close>
          by (intro Cons.IH [OF rest]) (auto simp: reads_undefined_obj_put)
      qed
    qed
  qed
qed

lemma default_fill_returns:
  assumes "\<forall>p \<in> set names. \<forall>t. map_of (PROPERTIES sch) p = Some t \<longrightarrow> reads_undefined this p
             \<longrightarrow> (\<exists>v. t JUndefined = Inr v)"
  shows "\<exists>r. default_fill sch names this = Inr r"
  using assms
proof (induction names arbitrary: this)
  case Nil
  then show ?case by simp
next
  case (Cons n names)
  show ?case
  proof (cases "reads_undefined this n")
    case False
    with Cons show ?thesis by auto
  next
    case ru: True
    show ?thesis
    proof (cases "map_of (PROPERTIES sch) n")
      case None
      with ru Cons show ?thesis by auto
    next
      case (Some t)
      with ru Cons.prems obtain v where v: "t JUndefined = Inr v" by auto
      have "\<exists>r. default_fill sch names (obj_put n v this) = Inr r"
      proof (rule Cons.IH, intro ballI allI impI)
        fix p t'
        assume p: "p \<in> set names" and t': "map_of (PROPERTIES sch) p = Some t'"
          and r: "reads_undefined (obj_put n v this) p"
        show "\<exists>v. t' JUndefined = Inr v"
        proof (cases "p = n")
          case True
          with t' Some v show ?thesis by auto
        next
          case False
          with r have "reads_undefined this p" by (simp add: reads_undefined_obj_put)
          with Cons.prems p t' show ?thesis by auto
        qed
      qed
      with ru Some v show ?thesis by simp
    qed
  qed
qed




subsection \<open>What the three loops leave in the fields\<close>

lemma init_fields_InrD:
  assumes "init_fields sch data keys = Inr F"
  obtains A B where "assign_fields sch data keys [] = Inr A"
    and "default_fill sch (map fst (PROPERTIES sch)) A = Inr B"
    and "derive_fields sch data (map fst (DERIVED_PROPERTIES sch)) B = Inr F"
  using assms by (auto simp: init_fields_def split: sum.splits)





lemma init_fields_returns:
  assumes "calls_return sch data"
  shows "\<exists>F. init_fields sch data (map fst (own_props data)) = Inr F"
proof -
  from assms obtain A where A: "assign_fields sch data (map fst (own_props data)) [] = Inr A"
    using assign_fields_returns [of "map fst (own_props data)" sch data "[]"]
    unfolding calls_return_def by blast
  from assms obtain B where B: "default_fill sch (map fst (PROPERTIES sch)) A = Inr B"
    using default_fill_returns [of "map fst (PROPERTIES sch)" sch A]
    unfolding calls_return_def by blast
  from assms obtain F where "derive_fields sch data (map fst (DERIVED_PROPERTIES sch)) B = Inr F"
    using derive_fields_returns [of sch data "map fst (DERIVED_PROPERTIES sch)" B]
    unfolding calls_return_def by blast
  with A B show ?thesis by (simp add: init_fields_def)
qed

text \<open>
  The serialization carries \<^verbatim>\<open>uuid\<close> and \<^verbatim>\<open>type\<close>, which the first loop hands to the
  transformer of a field declared under such a name. With the field \<^verbatim>\<open>{uuid: string}\<close>
  and the raw input \<^verbatim>\<open>{id: {toString: 5}}\<close> the constructor returns, the identifier
  being the object under \<^verbatim>\<open>id\<close>; construction on the serialization then raises, in
  \<^verbatim>\<open>String\<close>.
\<close>

lemma identity_field_raises:
  "Model_constructor (uuid_schema (JStr ''t''))
     (JObj [(''id'', JObj [(''toString'', JNum (Fin 5))])]) False world0
     = Inr (0, \<lparr>heap = [\<lparr>own = [(''uuid'', JObj [(''toString'', JNum (Fin 5))]),
                                 (''paginationId'', JObj [(''toString'', JNum (Fin 5))]),
                                 (''type'', JStr ''t'')],
                          frozen = True\<rparr>],
               random = (\<lambda>n. 1 / 2), warnings = []\<rparr>)
   \<and> fromJSON_toJSON (uuid_schema (JStr ''t'')) 0
         \<lparr>heap = [\<lparr>own = [(''uuid'', JObj [(''toString'', JNum (Fin 5))]),
                          (''paginationId'', JObj [(''toString'', JNum (Fin 5))]),
                          (''type'', JStr ''t'')],
                   frozen = True\<rparr>],
          random = (\<lambda>n. 1 / 2), warnings = []\<rparr>
     = Inl TypeError"
  by (simp add: uuid_schema_def world0_def fromJSON_toJSON_def model_defs world_defs
        value_defs types_defs)

subsection \<open>The shape of an instance with the single field \<^verbatim>\<open>score\<close>\<close>

lemma assign_score_shape:
  "assign_fields (score_schema kind str2num) data keys this = Inr r \<Longrightarrow>
   this = [] \<or> (\<exists>v. this = [(''score'', v)]) \<Longrightarrow>
   r = [] \<or> (\<exists>v. r = [(''score'', v)])"
proof (induction keys arbitrary: this)
  case Nil
  then show ?case by simp
next
  case (Cons key keys)
  have step: "obj_put ''score'' x this = [(''score'', x)]" for x
    using Cons.prems(2) by (auto simp: value_defs)
  show ?case
  proof (cases "key = ''score''")
    case True
    with Cons.prems(1) obtain x
      where "assign_fields (score_schema kind str2num) data keys [(''score'', x)] = Inr r"
      by (auto simp: score_schema_def keyName_of_def step split: sum.splits)
    then show ?thesis by (rule Cons.IH) simp
  next
    case False
    with Cons.prems(1)
    have "assign_fields (score_schema kind str2num) data keys this = Inr r"
      by (simp add: score_schema_def keyName_of_def)
    then show ?thesis by (rule Cons.IH) (rule Cons.prems(2))
  qed
qed

lemma init_fields_score:
  assumes "init_fields (score_schema kind str2num) data keys = Inr F"
  shows "\<exists>v. F = [(''score'', v)]"
proof -
  let ?S = "score_schema kind str2num"
  from assms obtain A B where A: "assign_fields ?S data keys [] = Inr A"
    and B: "default_fill ?S (map fst (PROPERTIES ?S)) A = Inr B"
    and D: "derive_fields ?S data (map fst (DERIVED_PROPERTIES ?S)) B = Inr F"
    by (rule init_fields_InrD)
  have "A = [] \<or> (\<exists>v. A = [(''score'', v)])"
    by (rule assign_score_shape [OF A]) simp
  with B have "\<exists>v. B = [(''score'', v)]"
    by (auto simp: score_schema_def reads_undefined_def inherited_names_def Types_number_def
          value_defs split: if_splits)
  with D show ?thesis
    by (simp add: score_schema_def)
qed

section \<open>The claims\<close>

subsection \<open>C1: construction on the serialization of an instance\<close>




subsection \<open>C2: the constructor and errors\<close>

text \<open>
  C2, as stated, fails on a keyed raw input with a malformed value. With the fields
  \<^verbatim>\<open>{a: string, b: number}\<close>, constructing from \<^verbatim>\<open>{a: {toString: 5}}\<close> raises a
  TypeError: the value is truthy, \<^verbatim>\<open>String\<close> finds a \<^verbatim>\<open>toString\<close> that is not callable,
  and nothing in the constructor catches what a transformer raises.
\<close>

theorem constructor_raises_counterexample:
  "Model_constructor (ab_schema (JStr ''t'') (\<lambda>s. NaN))
     (JObj [(''a'', JObj [(''toString'', JNum (Fin 5))])]) False world0 = Inl TypeError"
  by (simp add: ab_schema_def model_defs value_defs types_defs)

text \<open>
  C2, amended. On \<^verbatim>\<open>undefined\<close> and \<^verbatim>\<open>null\<close> the constructor raises a TypeError. On
  every other raw input, for a schema none of whose names is that of an inherited
  member, and provided that every call the constructor makes on this input returns
  (the transformer of each raw key that is assigned, each transformer with no
  argument, each derivation followed by its transformer), the constructor returns an
  instance, frozen unless the stub flag is set. In that instance a declared field other
  than \<^verbatim>\<open>uuid\<close>, \<^verbatim>\<open>paginationId\<close> and \<^verbatim>\<open>type\<close> that is not derived and that no raw key
  supplies (no raw key, the names of derived fields apart, has it for canonical name)
  holds the value its transformer returns when called with no argument.
\<close>

theorem constructor_returns_instance:
  "(data = JUndefined \<or> data = JNull \<longrightarrow> Model_constructor sch data flag w = Inl TypeError) \<and>
   (data \<noteq> JUndefined \<and> data \<noteq> JNull \<and> well_named sch \<and> calls_return sch data \<longrightarrow>
      (\<exists>a w'. Model_constructor sch data flag w = Inr (a, w')
         \<and> (\<exists>ob. lookup_obj w' a = Some ob \<and> frozen ob = (\<not> flag))
         \<and> (\<forall>p t. map_of (PROPERTIES sch) p = Some t
                   \<and> map_of (DERIVED_PROPERTIES sch) p = None
                   \<and> p \<noteq> ''uuid'' \<and> p \<noteq> ''paginationId'' \<and> p \<noteq> ''type''
                   \<and> (\<forall>k \<in> set (map fst (own_props data)).
                         map_of (DERIVED_PROPERTIES sch) k = None \<longrightarrow> keyName_of sch k \<noteq> p)
                 \<longrightarrow> t JUndefined = Inr (field w' a p))))"
proof (intro conjI impI)
  assume "data = JUndefined \<or> data = JNull"
  then show "Model_constructor sch data flag w = Inl TypeError"
    by (auto simp: Model_constructor_def)
next
  assume h: "data \<noteq> JUndefined \<and> data \<noteq> JNull \<and> well_named sch \<and> calls_return sch data"
  then have ok: "data \<noteq> JUndefined" "data \<noteq> JNull" and wn: "well_named sch" by simp_all
  let ?keys = "map fst (own_props data)"
  from h obtain F where F: "init_fields sch data ?keys = Inr F"
    using init_fields_returns by blast
  let ?I = "fst (identify sch data F w)"
  let ?w' = "(snd (makeUUID data w))\<lparr>heap := heap w @ [\<lparr>own = ?I, frozen = \<not> flag\<rparr>]\<rparr>"
  have default: "t JUndefined = Inr (field ?w' (length (heap w)) p)"
    if p: "map_of (PROPERTIES sch) p = Some t" "map_of (DERIVED_PROPERTIES sch) p = None"
          "p \<noteq> ''uuid''" "p \<noteq> ''paginationId''" "p \<noteq> ''type''"
      and missing: "\<forall>k \<in> set ?keys. map_of (DERIVED_PROPERTIES sch) k = None
                       \<longrightarrow> keyName_of sch k \<noteq> p"
    for p t
  proof -
    from F obtain A B where A: "assign_fields sch data ?keys [] = Inr A"
      and B: "default_fill sch (map fst (PROPERTIES sch)) A = Inr B"
      and D: "derive_fields sch data (map fst (DERIVED_PROPERTIES sch)) B = Inr F"
      by (rule init_fields_InrD)
    have "map_of A p = None"
      using assign_fields_other [OF A missing] by simp
    moreover have "p \<notin> set inherited_names"
      using wn p(1) unfolding well_named_def by blast
    ultimately have ru: "reads_undefined A p"
      by (simp add: reads_undefined_def)
    have mem: "p \<in> set (map fst (PROPERTIES sch))"
      using p(1) by (metis key_mem option.distinct(1))
    from default_fill_filled [OF B mem ru p(1)] obtain v
      where v: "t JUndefined = Inr v" "map_of B p = Some v" by blast
    have "map_of F p = map_of B p"
      using p(2) by (intro derive_fields_other [OF D]) simp
    with v have "obj_get F p = v" by (simp add: obj_get_def)
    with p(3-5) v show ?thesis
      by (simp add: field_new obj_get_identify)
  qed
  have built: "Model_constructor sch data flag w = Inr (length (heap w), ?w')"
    by (simp add: Model_constructor_eq [OF ok] F)
  have live: "\<exists>ob. lookup_obj ?w' (length (heap w)) = Some ob \<and> frozen ob = (\<not> flag)"
    by (simp add: lookup_obj_def)
  have "\<forall>p t. map_of (PROPERTIES sch) p = Some t
                   \<and> map_of (DERIVED_PROPERTIES sch) p = None
                   \<and> p \<noteq> ''uuid'' \<and> p \<noteq> ''paginationId'' \<and> p \<noteq> ''type''
                   \<and> (\<forall>k \<in> set (map fst (own_props data)).
                         map_of (DERIVED_PROPERTIES sch) k = None \<longrightarrow> keyName_of sch k \<noteq> p)
                 \<longrightarrow> t JUndefined = Inr (field ?w' (length (heap w)) p)"
    by (intro allI impI, elim conjE) (rule default, assumption+)
  with built live
  show "\<exists>a w'. Model_constructor sch data flag w = Inr (a, w')
         \<and> (\<exists>ob. lookup_obj w' a = Some ob \<and> frozen ob = (\<not> flag))
         \<and> (\<forall>p t. map_of (PROPERTIES sch) p = Some t
                   \<and> map_of (DERIVED_PROPERTIES sch) p = None
                   \<and> p \<noteq> ''uuid'' \<and> p \<noteq> ''paginationId'' \<and> p \<noteq> ''type''
                   \<and> (\<forall>k \<in> set (map fst (own_props data)).
                         map_of (DERIVED_PROPERTIES sch) k = None \<longrightarrow> keyName_of sch k \<noteq> p)
                 \<longrightarrow> t JUndefined = Inr (field w' a p))"
    by (intro exI [of _ "length (heap w)"] exI [of _ ?w']) (simp only: simp_thms)
qed

theorem constructor_returns_instance_witness:
  "JObj [(''b'', JNull), (''junk'', JArr [])] \<noteq> JUndefined \<and>
   JObj [(''b'', JNull), (''junk'', JArr [])] \<noteq> JNull \<and>
   well_named (ab_schema (JStr ''t'') (\<lambda>s. NaN)) \<and>
   calls_return (ab_schema (JStr ''t'') (\<lambda>s. NaN)) (JObj [(''b'', JNull), (''junk'', JArr [])]) \<and>
   (\<exists>a w'. Model_constructor (ab_schema (JStr ''t'') (\<lambda>s. NaN))
              (JObj [(''b'', JNull), (''junk'', JArr [])]) False world0 = Inr (a, w')
          \<and> field w' a ''a'' = JStr []) \<and>
   Model_constructor (ab_schema (JStr ''t'') (\<lambda>s. NaN)) JNull False world0 = Inl TypeError"
proof -
  let ?S = "ab_schema (JStr ''t'') (\<lambda>s. NaN)"
  let ?D = "JObj [(''b'', JNull), (''junk'', JArr [])]"
  have ok: "?D \<noteq> JUndefined \<and> ?D \<noteq> JNull" by simp
  have wn: "well_named ?S"
    by (auto simp: well_named_def ab_schema_def inherited_names_def split: if_splits)
  have cr: "calls_return ?S ?D"
    by (auto simp: calls_return_def ab_schema_def keyName_of_def types_defs obj_get_def
             split: if_splits)
  from ok wn cr constructor_returns_instance [of ?D ?S False world0]
  obtain a w' where built: "Model_constructor ?S ?D False world0 = Inr (a, w')"
    and default: "\<forall>p t. map_of (PROPERTIES ?S) p = Some t
                   \<and> map_of (DERIVED_PROPERTIES ?S) p = None
                   \<and> p \<noteq> ''uuid'' \<and> p \<noteq> ''paginationId'' \<and> p \<noteq> ''type''
                   \<and> (\<forall>k \<in> set (map fst (own_props ?D)).
                         map_of (DERIVED_PROPERTIES ?S) k = None \<longrightarrow> keyName_of ?S k \<noteq> p)
                 \<longrightarrow> t JUndefined = Inr (field w' a p)"
    by fast
  have "Types_string JUndefined = Inr (field w' a ''a'')"
    by (rule default [rule_format]) (simp add: ab_schema_def keyName_of_def)
  then have "field w' a ''a'' = JStr []"
    by (simp add: Types_string_def)
  moreover have "Model_constructor ?S JNull False world0 = Inl TypeError"
    using constructor_returns_instance [of JNull ?S False world0] by simp
  ultimately show ?thesis using ok wn cr built by fast
qed

subsection \<open>C3: derived fields take precedence\<close>



subsection \<open>C4: the stub scenario\<close>

text \<open>
  C4. Let \<^verbatim>\<open>I\<close> be an instance of a class with the field \<^verbatim>\<open>{score: number}\<close> whose
  \<^verbatim>\<open>score\<close> is 10. Then \<^verbatim>\<open>I.stub('score', 11, handle)\<close> returns a frozen instance
  \<^verbatim>\<open>S\<close> with \<^verbatim>\<open>S.score === 11\<close> and \<^verbatim>\<open>S.uuid === I.uuid\<close>, which carries the handle
  in its property \<^verbatim>\<open>promise\<close> and refuses every later assignment, and \<^verbatim>\<open>S.toJSON()\<close>
  consists of \<^verbatim>\<open>score\<close>, \<^verbatim>\<open>uuid\<close> and \<^verbatim>\<open>type\<close> only.
\<close>

theorem stub_round_trip:
  assumes built: "Model_constructor (score_schema kind str2num) data False w0 = Inr (a, w)"
      and score: "field w a ''score'' = JNum (Fin 10)"
  shows "\<exists>s w'. stub (score_schema kind str2num) a (JStr ''score'') (JNum (Fin 11))
                   (JPromise h) w = Inr (s, w')
           \<and> (\<exists>ob. lookup_obj w' s = Some ob \<and> frozen ob)
           \<and> field w' s ''score'' = JNum (Fin 11)
           \<and> field w' s ''uuid'' = field w a ''uuid''
           \<and> field w' s ''promise'' = JPromise h
           \<and> (\<forall>k x. set_prop s k x w' = Inl TypeError)
           \<and> toJSON (score_schema kind str2num) s w'
               = Inr [(''score'', JNum (Fin 11)), (''uuid'', field w a ''uuid''), (''type'', kind)]"
proof -
  let ?S = "score_schema kind str2num"
  from built obtain F where F: "init_fields ?S data (map fst (own_props data)) = Inr F"
    and a: "a = length (heap w0)"
    and w0: "w = (snd (makeUUID data w0))
                \<lparr>heap := heap w0 @ [\<lparr>own = fst (identify ?S data F w0), frozen = \<not> False\<rparr>]\<rparr>"
    by (rule Model_constructor_InrD)
  obtain v where init: "F = [(''score'', v)]"
    using init_fields_score [OF F] by blast
  let ?u = "fst (makeUUID data w0)"
  have u: "truthy ?u" by (rule makeUUID_truthy)
  let ?I = "[(''score'', v), (''uuid'', ?u), (''paginationId'', ?u), (''type'', kind)]"
  have I: "fst (identify ?S data [(''score'', v)] w0) = ?I"
    by (simp add: identify_eq score_schema_def value_defs)
  have w: "w = (snd (makeUUID data w0))\<lparr>heap := heap w0 @ [\<lparr>own = ?I, frozen = True\<rparr>]\<rparr>"
    using w0 unfolding init I by simp
  have look: "lookup_obj w a = Some \<lparr>own = ?I, frozen = True\<rparr>"
    by (simp add: a w lookup_obj_def)
  with score have v: "v = JNum (Fin 10)"
    by (simp add: field_def obj_get_def)
  have uuid: "field w a ''uuid'' = ?u"
    using look by (simp add: field_def obj_get_def)
  let ?Sobj = "[(''score'', JNum (Fin 11)), (''uuid'', ?u), (''paginationId'', ?u),
                (''type'', kind), (''promise'', JPromise h)]"
  let ?w' = "w\<lparr>heap := heap w @ [\<lparr>own = ?Sobj, frozen = True\<rparr>]\<rparr>"
  have json: "toJSON ?S a w = Inr [(''score'', JNum (Fin 10)), (''uuid'', ?u), (''type'', kind)]"
    using look v by (simp add: toJSON_def toJSON_props_def score_schema_def value_defs)
  have patch: "diff (JStr ''score'') (JNum (Fin 11)) = Inr (JObj [(''score'', JNum (Fin 11))])"
    by (simp add: diff_def)
  have next_: "spread2 (JObj [(''score'', JNum (Fin 10)), (''uuid'', ?u), (''type'', kind)])
                 (JObj [(''score'', JNum (Fin 11))])
               = [(''score'', JNum (Fin 11)), (''uuid'', ?u), (''type'', kind)]"
    by (simp add: value_defs)
  have cons: "Model_constructor ?S
                (JObj [(''score'', JNum (Fin 11)), (''uuid'', ?u), (''type'', kind)]) True w
              = Inr (length (heap w),
                     w\<lparr>heap := heap w @
                        [\<lparr>own = [(''score'', JNum (Fin 11)), (''uuid'', ?u),
                                 (''paginationId'', ?u), (''type'', kind)],
                          frozen = False\<rparr>]\<rparr>)"
    using u
    by (simp add: Model_constructor_def init_fields_def identify_def makeUUID_def
          makePaginationId_def getType_def keyName_of_def alloc_def score_schema_def
          reads_undefined_def value_defs Types_number_def)
  have res: "stub ?S a (JStr ''score'') (JNum (Fin 11)) (JPromise h) w
             = Inr (length (heap w), ?w')"
    unfolding stub_def json sum.case patch next_ cons prod.case
    by (simp add: set_prop_def Object_freeze_def lookup_obj_def is_index_def is_digit_def
          obj_put_def)
  have "\<exists>ob. lookup_obj ?w' (length (heap w)) = Some ob \<and> frozen ob"
    by (simp add: lookup_obj_def)
  moreover have "field ?w' (length (heap w)) ''score'' = JNum (Fin 11)"
    and "field ?w' (length (heap w)) ''uuid'' = field w a ''uuid''"
    and "field ?w' (length (heap w)) ''promise'' = JPromise h"
    by (simp_all add: field_new uuid) (simp_all add: obj_get_def)
  moreover have "\<forall>k x. set_prop (length (heap w)) k x ?w' = Inl TypeError"
    by (simp add: set_prop_def lookup_obj_def)
  moreover have "toJSON ?S (length (heap w)) ?w'
        = Inr [(''score'', JNum (Fin 11)), (''uuid'', field w a ''uuid''), (''type'', kind)]"
    by (simp add: uuid toJSON_def lookup_obj_def toJSON_props_def score_schema_def value_defs)
  ultimately show ?thesis
    using res by (intro exI [of _ "length (heap w)"] exI [of _ ?w']) (simp only: simp_thms)
qed

theorem stub_round_trip_witness:
  "\<exists>a w. Model_constructor (score_schema (JStr ''t'') (\<lambda>s. NaN))
            (JObj [(''id'', JStr ''t3_1''), (''score'', JNum (Fin 10))]) False world0
            = Inr (a, w)
     \<and> field w a ''score'' = JNum (Fin 10)
     \<and> (\<exists>s w'. stub (score_schema (JStr ''t'') (\<lambda>s. NaN)) a (JStr ''score'') (JNum (Fin 11))
                   (JPromise 0) w = Inr (s, w')
              \<and> (\<exists>ob. lookup_obj w' s = Some ob \<and> frozen ob)
              \<and> field w' s ''score'' = JNum (Fin 11)
              \<and> field w' s ''uuid'' = JStr ''t3_1''
              \<and> toJSON (score_schema (JStr ''t'') (\<lambda>s. NaN)) s w'
                  = Inr [(''score'', JNum (Fin 11)), (''uuid'', JStr ''t3_1''),
                         (''type'', JStr ''t'')])"
proof -
  let ?S = "score_schema (JStr ''t'') (\<lambda>s. NaN)"
  let ?OB = "\<lparr>own = [(''score'', JNum (Fin 10)), (''uuid'', JStr ''t3_1''),
                      (''paginationId'', JStr ''t3_1''), (''type'', JStr ''t'')],
               frozen = True\<rparr>"
  let ?W = "\<lparr>heap = [?OB], random = (\<lambda>n. 1 / 2), warnings = []\<rparr>"
  have built: "Model_constructor ?S (JObj [(''id'', JStr ''t3_1''), (''score'', JNum (Fin 10))])
                 False world0 = Inr (0, ?W)"
    by (simp add: score_schema_def world0_def model_defs world_defs value_defs types_defs)
  have score: "field ?W 0 ''score'' = JNum (Fin 10)"
    by (simp add: field_def lookup_obj_def obj_get_def)
  have uuid: "field ?W 0 ''uuid'' = JStr ''t3_1''"
    by (simp add: field_def lookup_obj_def obj_get_def)
  from stub_round_trip [OF built score, of 0] built score uuid show ?thesis
    by (intro exI [of _ 0] exI [of _ ?W]) auto
qed

subsection \<open>C5: \<^verbatim>\<open>set\<close> leaves the original alone\<close>

text \<open>
  C5, as stated, fails: \<^verbatim>\<open>set\<close> does not return on every argument. With the fields
  \<^verbatim>\<open>{a: string, b: number}\<close> and the instance built from \<^verbatim>\<open>{id: 't3_1'}\<close>,
  \<^verbatim>\<open>set('a', {toString: 5})\<close> raises a TypeError: the constructor that \<^verbatim>\<open>set\<close> runs on
  the merged input hands the object to \<^verbatim>\<open>String\<close>.
\<close>

theorem set_raises_counterexample:
  "Model_constructor (ab_schema (JStr ''t'') (\<lambda>s. NaN)) (JObj [(''id'', JStr ''t3_1'')])
     False world0
     = Inr (0, \<lparr>heap = [\<lparr>own = [(''a'', JStr ''''), (''b'', JNum (Fin 0)),
                                 (''uuid'', JStr ''t3_1''), (''paginationId'', JStr ''t3_1''),
                                 (''type'', JStr ''t'')],
                          frozen = True\<rparr>],
               random = (\<lambda>n. 1 / 2), warnings = []\<rparr>)
   \<and> set_Model (ab_schema (JStr ''t'') (\<lambda>s. NaN)) 0 (JStr ''a'')
        (JObj [(''toString'', JNum (Fin 5))])
        \<lparr>heap = [\<lparr>own = [(''a'', JStr ''''), (''b'', JNum (Fin 0)),
                         (''uuid'', JStr ''t3_1''), (''paginationId'', JStr ''t3_1''),
                         (''type'', JStr ''t'')],
                  frozen = True\<rparr>],
         random = (\<lambda>n. 1 / 2), warnings = []\<rparr>
     = Inl TypeError"
  by (simp add: ab_schema_def world0_def model_defs world_defs value_defs types_defs)

text \<open>
  C5, amended. For every instance in the heap and every key or patch: whenever \<^verbatim>\<open>set\<close>
  returns, it returns a new, frozen instance at an address other than that of the
  original; the original keeps every property it had, and so does every other object.
  The patch is always made, and \<^verbatim>\<open>set\<close> returns whenever no name of the schema is that
  of an inherited member and every call that the constructor makes on the merged
  input (the serialization of the instance, overridden by the patch) returns.
\<close>

theorem set_returns_new_instance:
  assumes "lookup_obj w a = Some ob"
  shows "(\<forall>b w'. set_Model sch a keyOrObject val w = Inr (b, w') \<longrightarrow>
            b \<noteq> a
            \<and> lookup_obj w' a = Some ob
            \<and> (\<forall>k. field w' a k = field w a k)
            \<and> (\<forall>c. c \<noteq> b \<longrightarrow> lookup_obj w' c = lookup_obj w c)
            \<and> (\<exists>nb. lookup_obj w' b = Some nb \<and> frozen nb))
       \<and> (\<exists>patch. diff keyOrObject val = Inr patch
            \<and> (well_named sch
                 \<and> calls_return sch (JObj (spread2 (JObj (toJSON_props sch (own ob))) patch))
               \<longrightarrow> (\<exists>b w'. set_Model sch a keyOrObject val w = Inr (b, w'))))"
proof -
  from assms have a: "a < length (heap w)" "heap w ! a = ob"
    by (simp_all add: lookup_obj_Some)
  have frame: "b \<noteq> a
            \<and> lookup_obj w' a = Some ob
            \<and> (\<forall>k. field w' a k = field w a k)
            \<and> (\<forall>c. c \<noteq> b \<longrightarrow> lookup_obj w' c = lookup_obj w c)
            \<and> (\<exists>nb. lookup_obj w' b = Some nb \<and> frozen nb)"
    if ret: "set_Model sch a keyOrObject val w = Inr (b, w')" for b w'
  proof -
    from ret assms obtain patch where
      built: "Model_constructor sch (JObj (spread2 (JObj (toJSON_props sch (own ob))) patch))
                False w = Inr (b, w')"
      by (auto simp: set_Model_def toJSON_def split: sum.splits)
    let ?D = "JObj (spread2 (JObj (toJSON_props sch (own ob))) patch)"
    from built obtain F where b: "b = length (heap w)"
      and w': "w' = (snd (makeUUID ?D w))
                  \<lparr>heap := heap w @ [\<lparr>own = fst (identify sch ?D F w), frozen = \<not> False\<rparr>]\<rparr>"
      by (rule Model_constructor_InrD)
    have old: "lookup_obj w' c = lookup_obj w c" if "c \<noteq> b" for c
      using that by (auto simp: b w' lookup_obj_def nth_append)
    have "b \<noteq> a" using a by (simp add: b)
    moreover have "lookup_obj w' a = Some ob"
      using old [of a] \<open>b \<noteq> a\<close> assms by simp
    moreover have "\<forall>k. field w' a k = field w a k"
      using old [of a] \<open>b \<noteq> a\<close> by (simp add: field_def)
    moreover have "\<forall>c. c \<noteq> b \<longrightarrow> lookup_obj w' c = lookup_obj w c"
      using old by simp
    moreover have "\<exists>nb. lookup_obj w' b = Some nb \<and> frozen nb"
      by (simp add: b w' lookup_obj_def)
    ultimately show ?thesis by (simp only: simp_thms)
  qed
  obtain patch where patch: "diff keyOrObject val = Inr patch"
    using diff_returns by blast
  let ?D = "JObj (spread2 (JObj (toJSON_props sch (own ob))) patch)"
  have "\<exists>b w'. set_Model sch a keyOrObject val w = Inr (b, w')"
    if "well_named sch \<and> calls_return sch ?D"
  proof -
    from that obtain F where "init_fields sch ?D (map fst (own_props ?D)) = Inr F"
      using init_fields_returns by blast
    then show ?thesis
      using assms patch by (simp add: set_Model_def toJSON_def Model_constructor_eq)
  qed
  with patch
  have returns: "\<exists>patch. diff keyOrObject val = Inr patch
            \<and> (well_named sch
                 \<and> calls_return sch (JObj (spread2 (JObj (toJSON_props sch (own ob))) patch))
               \<longrightarrow> (\<exists>b w'. set_Model sch a keyOrObject val w = Inr (b, w')))"
    by (intro exI [of _ patch]) simp
  from frame
  have "\<forall>b w'. set_Model sch a keyOrObject val w = Inr (b, w') \<longrightarrow>
            b \<noteq> a
            \<and> lookup_obj w' a = Some ob
            \<and> (\<forall>k. field w' a k = field w a k)
            \<and> (\<forall>c. c \<noteq> b \<longrightarrow> lookup_obj w' c = lookup_obj w c)
            \<and> (\<exists>nb. lookup_obj w' b = Some nb \<and> frozen nb)"
    by (intro allI impI)
  then show ?thesis using returns by (rule conjI)
qed

theorem set_returns_new_instance_witness:
  "\<exists>a w ob. Model_constructor (score_schema (JStr ''t'') (\<lambda>s. NaN))
               (JObj [(''id'', JStr ''t3_1''), (''score'', JNum (Fin 10))]) False world0
               = Inr (a, w)
     \<and> lookup_obj w a = Some ob
     \<and> (\<exists>b w'. set_Model (score_schema (JStr ''t'') (\<lambda>s. NaN)) a (JStr ''score'')
                  (JNum (Fin 11)) w = Inr (b, w')
              \<and> b \<noteq> a \<and> lookup_obj w' a = Some ob
              \<and> field w' a ''score'' = JNum (Fin 10))"
proof -
  let ?S = "score_schema (JStr ''t'') (\<lambda>s. NaN)"
  let ?OB = "\<lparr>own = [(''score'', JNum (Fin 10)), (''uuid'', JStr ''t3_1''),
                      (''paginationId'', JStr ''t3_1''), (''type'', JStr ''t'')],
               frozen = True\<rparr>"
  let ?W = "\<lparr>heap = [?OB], random = (\<lambda>n. 1 / 2), warnings = []\<rparr>"
  let ?D = "JObj [(''score'', JNum (Fin 11)), (''uuid'', JStr ''t3_1''), (''type'', JStr ''t'')]"
  have built: "Model_constructor ?S (JObj [(''id'', JStr ''t3_1''), (''score'', JNum (Fin 10))])
                 False world0 = Inr (0, ?W)"
    by (simp add: score_schema_def world0_def model_defs world_defs value_defs types_defs)
  have look: "lookup_obj ?W 0 = Some ?OB"
    by (simp add: lookup_obj_def)
  have score: "field ?W 0 ''score'' = JNum (Fin 10)"
    by (simp add: field_def lookup_obj_def obj_get_def)
  have patch: "diff (JStr ''score'') (JNum (Fin 11)) = Inr (JObj [(''score'', JNum (Fin 11))])"
    by (simp add: diff_def)
  have merged: "JObj (spread2 (JObj (toJSON_props ?S (own ?OB))) (JObj [(''score'', JNum (Fin 11))]))
                = ?D"
    by (simp add: toJSON_props_def score_schema_def value_defs)
  have wn: "well_named ?S"
    by (auto simp: well_named_def score_schema_def inherited_names_def split: if_splits)
  have cr: "calls_return ?S ?D"
    by (auto simp: calls_return_def score_schema_def keyName_of_def types_defs obj_get_def
             split: if_splits)
  note inst = set_returns_new_instance [OF look, of ?S "JStr ''score''" "JNum (Fin 11)"]
  from inst [THEN conjunct2] patch merged wn cr
  obtain b w' where ret: "set_Model ?S 0 (JStr ''score'') (JNum (Fin 11)) ?W = Inr (b, w')"
    by auto
  from inst [THEN conjunct1, rule_format, OF ret]
  have "b \<noteq> 0" and "lookup_obj w' 0 = Some ?OB" and "\<forall>k. field w' 0 k = field ?W 0 k"
    by simp_all
  with built look score ret show ?thesis by auto
qed

subsection \<open>C6: the transformers called with no argument\<close>

text \<open>
  C6, as stated, fails for \<^verbatim>\<open>likes\<close>: called with no argument it returns
  \<^verbatim>\<open>undefined\<close>, which is not a number.
\<close>

theorem likes_no_argument_counterexample:
  "Types_likes JUndefined = Inr JUndefined \<and> js_typeof JUndefined \<noteq> ''number''"
  by (simp add: Types_likes_def)

text \<open>
  C6, amended. Called with no argument, \<^verbatim>\<open>string\<close> returns \<^verbatim>\<open>""\<close>, \<^verbatim>\<open>number\<close> returns 0,
  \<^verbatim>\<open>array\<close> and \<^verbatim>\<open>arrayOf(type)\<close> return \<^verbatim>\<open>[]\<close> and \<^verbatim>\<open>bool\<close> returns \<^verbatim>\<open>false\<close>, while
  \<^verbatim>\<open>likes\<close> and \<^verbatim>\<open>nop\<close> return \<^verbatim>\<open>undefined\<close>. On every value \<^verbatim>\<open>array\<close> returns an
  array, \<^verbatim>\<open>bool\<close> a boolean, \<^verbatim>\<open>likes\<close> returns, \<^verbatim>\<open>nop\<close> returns the value itself and
  \<^verbatim>\<open>arrayOf()\<close>, with its default element type, returns an array; \<^verbatim>\<open>arrayOf(type)\<close>
  returns an array whenever it returns. On a value that \<^verbatim>\<open>String\<close> and \<^verbatim>\<open>Number\<close>
  convert, \<^verbatim>\<open>string\<close> returns a string and \<^verbatim>\<open>number\<close> a number; on every other value
  (an object with an own property \<^verbatim>\<open>toString\<close>, an array that holds such an object at
  any depth) both raise a TypeError.
\<close>

theorem types_no_argument:
  "Types_string JUndefined = Inr (JStr []) \<and>
   Types_number str2num JUndefined = Inr (JNum (Fin 0)) \<and>
   Types_array JUndefined = Inr (JArr []) \<and>
   Types_arrayOf type JUndefined = Inr (JArr []) \<and>
   Types_bool JUndefined = Inr (JBool False) \<and>
   Types_likes JUndefined = Inr JUndefined \<and>
   Types_nop JUndefined = Inr JUndefined \<and>
   (\<exists>xs. Types_array val = Inr (JArr xs)) \<and>
   (\<exists>b. Types_bool val = Inr (JBool b)) \<and>
   (\<exists>r. Types_likes val = Inr r) \<and>
   Types_nop val = Inr val \<and>
   (\<exists>ys. Types_arrayOf None val = Inr (JArr ys)) \<and>
   (\<forall>r. Types_arrayOf type val = Inr r \<longrightarrow> (\<exists>ys. r = JArr ys)) \<and>
   (convertible val \<longrightarrow>
      (\<exists>s. Types_string val = Inr (JStr s)) \<and> (\<exists>n. Types_number str2num val = Inr (JNum n))) \<and>
   (\<not> convertible val \<longrightarrow>
      Types_string val = Inl TypeError \<and> Types_number str2num val = Inl TypeError)"
proof -
  have zero: "Types_string JUndefined = Inr (JStr [])"
      "Types_number str2num JUndefined = Inr (JNum (Fin 0))"
      "Types_array JUndefined = Inr (JArr [])"
      "Types_arrayOf type JUndefined = Inr (JArr [])"
      "Types_bool JUndefined = Inr (JBool False)"
      "Types_likes JUndefined = Inr JUndefined"
      "Types_nop JUndefined = Inr JUndefined"
    by (simp_all add: types_defs)
  have total: "\<exists>xs. Types_array val = Inr (JArr xs)" "\<exists>b. Types_bool val = Inr (JBool b)"
      "\<exists>r. Types_likes val = Inr r" "Types_nop val = Inr val"
    by (auto simp: types_defs split: jsval.splits)
  have "in_turn (map Types_nop xs) = Inr xs" for xs
    by (rule in_turn_fixed) (simp add: Types_nop_def)
  then have plain: "\<exists>ys. Types_arrayOf None val = Inr (JArr ys)"
    by (simp add: Types_arrayOf_eq)
  have arr: "\<forall>r. Types_arrayOf type val = Inr r \<longrightarrow> (\<exists>ys. r = JArr ys)"
    by (auto simp: Types_arrayOf_eq split: sum.splits)
  have conv: "convertible val \<longrightarrow>
      (\<exists>s. Types_string val = Inr (JStr s)) \<and> (\<exists>n. Types_number str2num val = Inr (JNum n))"
  proof
    assume c: "convertible val"
    then obtain r where r: "Types_string val = Inr r"
      using Types_string_returns by blast
    with Types_string_typed [OF r] have "\<exists>s. Types_string val = Inr (JStr s)"
      by (cases r) auto
    moreover from c obtain q where q: "Types_number str2num val = Inr q"
      using Types_number_returns by blast
    with Types_number_typed [OF q] have "\<exists>n. Types_number str2num val = Inr (JNum n)"
      by (cases q) auto
    ultimately show "(\<exists>s. Types_string val = Inr (JStr s))
        \<and> (\<exists>n. Types_number str2num val = Inr (JNum n))" ..
  qed
  have nconv: "\<not> convertible val \<longrightarrow>
      Types_string val = Inl TypeError \<and> Types_number str2num val = Inl TypeError"
  proof
    assume c: "\<not> convertible val"
    have "Types_string val = Inl TypeError"
      using c Types_string_returns [of val] Types_string_error [of val]
      by (cases "Types_string val") auto
    moreover have "Types_number str2num val = Inl TypeError"
      using c Types_number_returns [of str2num val] Types_number_error [of str2num val]
      by (cases "Types_number str2num val") auto
    ultimately show "Types_string val = Inl TypeError \<and> Types_number str2num val = Inl TypeError" ..
  qed
  from zero total plain arr conv nconv show ?thesis by (simp only: simp_thms)
qed

theorem types_no_argument_witness:
  "convertible (JNum (Fin 7)) \<and>
   Types_string (JNum (Fin 7)) = Inr (JStr ''7'') \<and>
   Types_number (\<lambda>s. NaN) (JNum (Fin 7)) = Inr (JNum (Fin 7)) \<and>
   \<not> convertible (JObj [(''toString'', JNum (Fin 5))]) \<and>
   Types_string (JObj [(''toString'', JNum (Fin 5))]) = Inl TypeError \<and>
   Types_number (\<lambda>s. NaN) (JObj [(''toString'', JNum (Fin 5))]) = Inl TypeError"
proof -
  have c: "convertible (JNum (Fin 7))" by simp
  have n: "\<not> convertible (JObj [(''toString'', JNum (Fin 5))])" by simp
  from types_no_argument [of "\<lambda>s. NaN" None "JNum (Fin 7)"] c
  have "(\<exists>s. Types_string (JNum (Fin 7)) = Inr (JStr s))
      \<and> (\<exists>m. Types_number (\<lambda>s. NaN) (JNum (Fin 7)) = Inr (JNum m))"
    by blast
  then have "Types_string (JNum (Fin 7)) = Inr (JStr ''7'')"
    and "Types_number (\<lambda>s. NaN) (JNum (Fin 7)) = Inr (JNum (Fin 7))"
    by (auto simp: types_defs dec_int_def dec_nat.simps digit_char_def)
  moreover from types_no_argument [of "\<lambda>s. NaN" None "JObj [(''toString'', JNum (Fin 5))]"] n
  have "Types_string (JObj [(''toString'', JNum (Fin 5))]) = Inl TypeError
      \<and> Types_number (\<lambda>s. NaN) (JObj [(''toString'', JNum (Fin 5))]) = Inl TypeError"
    by blast
  ultimately show ?thesis using c n by blast
qed

subsection \<open>C7: default fill\<close>

text \<open>
  C7. Constructing from the empty object \<^verbatim>\<open>{}\<close> against the fields
  \<^verbatim>\<open>{a: string, b: number}\<close> gives an instance with \<^verbatim>\<open>a === ""\<close> and \<^verbatim>\<open>b === 0\<close>, whose
  \<^verbatim>\<open>uuid\<close> is the fallback string made from the next random number, and that string is
  not empty.
\<close>

theorem default_fill_empty_input:
  "\<exists>w'. Model_constructor (ab_schema kind str2num) (JObj []) False w = Inr (length (heap w), w')
     \<and> field w' (length (heap w)) ''a'' = JStr []
     \<and> field w' (length (heap w)) ''b'' = JNum (Fin 0)
     \<and> field w' (length (heap w)) ''uuid'' = JStr (toFixed (random w 0 * 16))
     \<and> toFixed (random w 0 * 16) \<noteq> []"
  by (simp add: ab_schema_def model_defs world_defs value_defs types_defs toFixed_not_Nil)

subsection \<open>C8: alias resolution\<close>

text \<open>
  C8. With the alias \<^verbatim>\<open>{x: 'y'}\<close> and the transformer \<^verbatim>\<open>string\<close> for \<^verbatim>\<open>y\<close>, constructing
  from \<^verbatim>\<open>{x: 5}\<close> gives an instance with \<^verbatim>\<open>y === "5"\<close>.
\<close>

theorem alias_resolution:
  "\<exists>w'. Model_constructor (alias_schema kind) (JObj [(''x'', JNum (Fin 5))]) False w
           = Inr (length (heap w), w')
     \<and> field w' (length (heap w)) ''y'' = JStr ''5''"
  by (simp add: alias_schema_def model_defs world_defs value_defs types_defs dec_nat.simps)

subsection \<open>C9: the \<^verbatim>\<open>likes\<close> transformer\<close>

text \<open>
  C9. The \<^verbatim>\<open>likes\<close> transformer maps \<^verbatim>\<open>true\<close> to 1, \<^verbatim>\<open>false\<close> to -1 and \<^verbatim>\<open>null\<close> to 0,
  and returns every other value, such as the integer 7, unchanged.
\<close>

theorem likes_tristate:
  "Types_likes (JBool True) = Inr (JNum (Fin 1)) \<and>
   Types_likes (JBool False) = Inr (JNum (Fin (- 1))) \<and>
   Types_likes JNull = Inr (JNum (Fin 0)) \<and>
   Types_likes (JNum (Fin 7)) = Inr (JNum (Fin 7)) \<and>
   (\<forall>val. val \<noteq> JBool True \<and> val \<noteq> JBool False \<and> val \<noteq> JNull
          \<longrightarrow> Types_likes val = Inr val)"
  by (simp add: Types_likes_def)

theorem likes_tristate_witness:
  "JStr ''up'' \<noteq> JBool True \<and> JStr ''up'' \<noteq> JBool False \<and> JStr ''up'' \<noteq> JNull \<and>
   Types_likes (JStr ''up'') = Inr (JStr ''up'')"
proof -
  have other: "JStr ''up'' \<noteq> JBool True \<and> JStr ''up'' \<noteq> JBool False \<and> JStr ''up'' \<noteq> JNull"
    by simp
  from likes_tristate
  have "\<forall>val. val \<noteq> JBool True \<and> val \<noteq> JBool False \<and> val \<noteq> JNull
          \<longrightarrow> Types_likes val = Inr val"
    by blast
  with other show ?thesis by blast
qed

subsection \<open>C10: the pagination identifier\<close>

text \<open>
  C10. For every instance that the constructor returns, \<^verbatim>\<open>uuid\<close> is what \<^verbatim>\<open>makeUUID\<close>
  returned (the \<^verbatim>\<open>uuid\<close> of the raw input, else its \<^verbatim>\<open>id\<close>, else the fallback),
  that value is truthy, and \<^verbatim>\<open>paginationId\<close> is equal to \<^verbatim>\<open>uuid\<close>.
\<close>

theorem paginationId_is_uuid:
  assumes "Model_constructor sch data flag w = Inr (a, w')"
  shows "field w' a ''uuid'' = fst (makeUUID data w) \<and>
         truthy (field w' a ''uuid'') \<and>
         field w' a ''paginationId'' = field w' a ''uuid''"
proof -
  from assms obtain F where "a = length (heap w)"
    and "w' = (snd (makeUUID data w))
                \<lparr>heap := heap w @ [\<lparr>own = fst (identify sch data F w), frozen = \<not> flag\<rparr>]\<rparr>"
    by (rule Model_constructor_InrD)
  then show ?thesis
    by (simp add: field_new obj_get_identify makeUUID_truthy)
qed

theorem paginationId_is_uuid_witness:
  "\<exists>a w'. Model_constructor (ab_schema (JStr ''t'') (\<lambda>s. NaN)) (JObj [(''id'', JStr ''t3_1'')])
             False world0 = Inr (a, w')
     \<and> field w' a ''uuid'' = JStr ''t3_1''
     \<and> truthy (field w' a ''uuid'')
     \<and> field w' a ''paginationId'' = field w' a ''uuid''"
proof -
  let ?S = "ab_schema (JStr ''t'') (\<lambda>s. NaN)"
  let ?D = "JObj [(''id'', JStr ''t3_1'')]"
  obtain a w' where built: "Model_constructor ?S ?D False world0 = Inr (a, w')"
    by (simp add: ab_schema_def world0_def model_defs world_defs value_defs types_defs)
  have "fst (makeUUID ?D world0) = JStr ''t3_1''"
    by (simp add: makeUUID_def obj_get_def)
  with paginationId_is_uuid [OF built] built show ?thesis by auto
qed

end
